theory Spec2Isabelle
  imports Complex_Main
begin

section \<open>Python values used by the service\<close>

text \<open>
  Exceptions are values.  Every handler of \<^verbatim>\<open>app/main.py\<close> returns \<open>exn + 'a\<close>: \<open>Inl e\<close> is
  "the call raised \<open>e\<close>", \<open>Inr v\<close> is "the call returned \<open>v\<close>".  The string carried by a
  built-in exception is its \<^verbatim>\<open>str(e)\<close>.
\<close>

datatype exn =
    HTTPException nat string
  | FileNotFoundError string
  | ValueError string
  | OverflowError string
  | IndexError string
  | OutOfBoundsDatetime string
  | OtherError string

text \<open>The JSON document handed to \<^verbatim>\<open>JSONResponse\<close>: a dict keeps the order of its keys.\<close>

datatype json = JStr string | JBool bool | JObj "(string \<times> json) list"

text \<open>
  What the web framework makes of a handler's outcome: a returned value is sent with the
  status of the route decorator (\<^verbatim>\<open>status_code=200\<close> on every route), an
  \<^verbatim>\<open>HTTPException\<close> with its own status, and any other exception that leaves the handler
  is answered with 500 Internal Server Error.
\<close>

fun http_status :: "exn + 'a \<Rightarrow> nat" where
  "http_status (Inr v) = 200"
| "http_status (Inl (HTTPException code detail)) = code"
| "http_status (Inl e) = 500"

text \<open>
  A Python float: \<open>Finite q\<close> is the double whose exact value is the rational \<open>q\<close>
  (\<open>Finite 0\<close> is \<^verbatim>\<open>0.0\<close>), \<open>NegZero\<close> is \<^verbatim>\<open>-0.0\<close>; the other three are the non-finite doubles.
\<close>

datatype pyfloat = Finite rat | NegZero | PosInf | NegInf | NaN

section \<open>The calendar of \<^verbatim>\<open>datetime\<close>\<close>

record date =
  year :: int
  month :: int
  day :: int

record datetime = date +
  hour :: int
  minute :: int
  second :: int
  microsecond :: int

definition MINYEAR :: int where "MINYEAR = 1"
definition MAXYEAR :: int where "MAXYEAR = 9999"
definition MAXORDINAL :: int where "MAXORDINAL = 3652059"

definition DAYS_IN_MONTH :: "int list" where
  "DAYS_IN_MONTH = [-1, 31, 28, 31, 30, 31, 30, 31, 31, 30, 31, 30, 31]"

definition DAYS_BEFORE_MONTH :: "int list" where
  "DAYS_BEFORE_MONTH = [-1, 0, 31, 59, 90, 120, 151, 181, 212, 243, 273, 304, 334]"

definition is_leap :: "int \<Rightarrow> bool" where
  "is_leap y \<longleftrightarrow> y mod 4 = 0 \<and> (y mod 100 \<noteq> 0 \<or> y mod 400 = 0)"

definition days_before_year :: "int \<Rightarrow> int" where
  "days_before_year y' = (let y = y' - 1 in y * 365 + y div 4 - y div 100 + y div 400)"

text \<open>
  The two table look-ups are guarded in the source by \<^verbatim>\<open>assert 1 <= month <= 12\<close>; every
  call below is made with a month that was checked (\<open>check_date_fields\<close>) or computed in that
  range (\<open>ord2ymd\<close>).
\<close>

definition days_in_month :: "int \<Rightarrow> int \<Rightarrow> int" where
  "days_in_month y m = (if m = 2 \<and> is_leap y then 29 else DAYS_IN_MONTH ! nat m)"

definition days_before_month :: "int \<Rightarrow> int \<Rightarrow> int" where
  "days_before_month y m = DAYS_BEFORE_MONTH ! nat m + (if m > 2 \<and> is_leap y then 1 else 0)"

definition ymd2ord :: "int \<Rightarrow> int \<Rightarrow> int \<Rightarrow> int" where
  "ymd2ord y m d = days_before_year y + days_before_month y m + d"

definition DI400Y :: int where "DI400Y = 146097"
definition DI100Y :: int where "DI100Y = 36524"
definition DI4Y :: int where "DI4Y = 1461"

definition ord2ymd :: "int \<Rightarrow> int \<times> int \<times> int" where
  "ord2ymd n0 =
     (let n = n0 - 1;
          n400 = n div DI400Y; n = n mod DI400Y;
          y = n400 * 400 + 1;
          n100 = n div DI100Y; n = n mod DI100Y;
          n4 = n div DI4Y; n = n mod DI4Y;
          n1 = n div 365; n = n mod 365;
          y = y + n100 * 100 + n4 * 4 + n1
      in if n1 = 4 \<or> n100 = 4 then (y - 1, 12, 31)
         else
           let leapyear = (n1 = 3 \<and> (n4 \<noteq> 24 \<or> n100 = 3));
               m = (n + 50) div 32;
               preceding = DAYS_BEFORE_MONTH ! nat m + (if m > 2 \<and> leapyear then 1 else 0)
           in if preceding > n
              then let m = m - 1;
                       preceding = preceding - (DAYS_IN_MONTH ! nat m + (if m = 2 \<and> leapyear then 1 else 0))
                   in (y, m, n - preceding + 1)
              else (y, m, n - preceding + 1))"

text \<open>\<^verbatim>\<open>_check_date_fields\<close>, the validation done by the constructors of \<^verbatim>\<open>date\<close> and \<^verbatim>\<open>datetime\<close>.\<close>

definition check_date_fields :: "int \<Rightarrow> int \<Rightarrow> int \<Rightarrow> exn + unit" where
  "check_date_fields y m d =
     (if \<not> (MINYEAR \<le> y \<and> y \<le> MAXYEAR) then Inl (ValueError ''year must be in 1..9999'')
      else if \<not> (1 \<le> m \<and> m \<le> 12) then Inl (ValueError ''month must be in 1..12'')
      else if \<not> (1 \<le> d \<and> d \<le> days_in_month y m) then Inl (ValueError ''day is out of range for month'')
      else Inr ())"

definition toordinal :: "'a date_scheme \<Rightarrow> int" where
  "toordinal d = ymd2ord (year d) (month d) (day d)"

text \<open>
  \<^verbatim>\<open>datetime.__add__\<close> for a \<^verbatim>\<open>timedelta(days=k)\<close>: the time of day is kept, the date goes
  through the ordinal, and a result outside \<^verbatim>\<open>date.min .. date.max\<close> raises.
\<close>

definition datetime_add_days :: "datetime \<Rightarrow> int \<Rightarrow> exn + datetime" where
  "datetime_add_days d k =
     (let days = toordinal d + k
      in if 0 < days \<and> days \<le> MAXORDINAL
         then (case ord2ymd days of (y, m, dd) \<Rightarrow> Inr (d\<lparr>year := y, month := m, day := dd\<rparr>))
         else Inl (OverflowError ''date value out of range''))"

section \<open>\<^verbatim>\<open>datetime.strptime(s, "%Y-%m-%d")\<close>\<close>

text \<open>
  \<^verbatim>\<open>_strptime\<close> compiles the format into the regular expression
  \<^verbatim>\<open>(?P<Y>\d\d\d\d)-(?P<m>1[0-2]|0[1-9]|[1-9])-(?P<d>3[0-1]|[1-2]\d|0[1-9]|[1-9]| [1-9])\<close>
  and matches it at the start of the string.  A character class is the list of its members
  (over the 8-bit characters of \<open>string\<close>, \<^verbatim>\<open>\d\<close> is \<^verbatim>\<open>[0-9]\<close>); a named group is the ordered
  list of its alternatives, each a sequence of classes; matching backtracks over the
  alternatives in order, as \<^verbatim>\<open>re\<close> does.
\<close>

type_synonym cclass = "char list"

datatype re_item = Lit char | Group "cclass list list"

definition cls_digit :: cclass where "cls_digit = ''0123456789''"
definition cls_1_9 :: cclass where "cls_1_9 = ''123456789''"

definition re_Y :: re_item where
  "re_Y = Group [[cls_digit, cls_digit, cls_digit, cls_digit]]"

definition re_m :: re_item where
  "re_m = Group [[''1'', ''012''], [''0'', cls_1_9], [cls_1_9]]"

definition re_d :: re_item where
  "re_d = Group [[''3'', ''01''], [''12'', cls_digit], [''0'', cls_1_9], [cls_1_9], ['' '', cls_1_9]]"

definition format_regex :: "re_item list" where
  "format_regex = [re_Y, Lit CHR ''-'', re_m, Lit CHR ''-'', re_d]"

fun match_classes :: "cclass list \<Rightarrow> string \<Rightarrow> (string \<times> string) option" where
  "match_classes [] s = Some ([], s)"
| "match_classes (c # cs) [] = None"
| "match_classes (c # cs) (x # xs) =
     (if x \<in> set c
      then (case match_classes cs xs of None \<Rightarrow> None | Some (m, r) \<Rightarrow> Some (x # m, r))
      else None)"

fun first_some :: "'a option list \<Rightarrow> 'a option" where
  "first_some [] = None"
| "first_some (None # xs) = first_some xs"
| "first_some (Some x # xs) = Some x"

text \<open>\<open>re_match\<close> returns the text of the groups, in order, and the unmatched rest.\<close>

fun re_match :: "re_item list \<Rightarrow> string \<Rightarrow> (string list \<times> string) option" where
  "re_match [] s = Some ([], s)"
| "re_match (Lit c # items) s =
     (case s of [] \<Rightarrow> None | x # xs \<Rightarrow> if x = c then re_match items xs else None)"
| "re_match (Group alts # items) s =
     first_some (map (\<lambda>alt.
        case match_classes alt s of
          None \<Rightarrow> None
        | Some (m, r) \<Rightarrow>
            (case re_match items r of None \<Rightarrow> None | Some (gs, r') \<Rightarrow> Some (m # gs, r'))) alts)"

text \<open>\<^verbatim>\<open>int(s)\<close> on the text of a group: optional blanks, then decimal digits.\<close>

definition digit_val :: "char \<Rightarrow> int" where
  "digit_val c = int (of_char c) - 48"

definition py_int :: "string \<Rightarrow> int" where
  "py_int s = foldl (\<lambda>a c. 10 * a + digit_val c) 0 (dropWhile (\<lambda>c. c = CHR '' '') s)"

definition strptime_Ymd :: "string \<Rightarrow> exn + datetime" where
  "strptime_Ymd s =
     (case re_match format_regex s of
        None \<Rightarrow> Inl (ValueError ''time data does not match format'')
      | Some (groups, rest) \<Rightarrow>
          if rest \<noteq> [] then Inl (ValueError (''unconverted data remains: '' @ rest))
          else
            let y = py_int (groups ! 0); m = py_int (groups ! 1); d = py_int (groups ! 2)
            in (case check_date_fields y m d of
                  Inl e \<Rightarrow> Inl e
                | Inr _ \<Rightarrow> Inr \<lparr>year = y, month = m, day = d,
                                hour = 0, minute = 0, second = 0, microsecond = 0\<rparr>))"

section \<open>\<^verbatim>\<open>strftime("%Y-%m-%d")\<close>\<close>

text \<open>
  The documented rendering: the year as four digits (\<^verbatim>\<open>0001\<close> .. \<^verbatim>\<open>9999\<close>), month and day
  as two, zero-padded.
\<close>

definition digit_char :: "nat \<Rightarrow> char" where
  "digit_char n = ''0123456789'' ! n"

fun str_nat :: "nat \<Rightarrow> string" where
  "str_nat n = (if n < 10 then [digit_char n] else str_nat (n div 10) @ [digit_char (n mod 10)])"

definition zfill :: "nat \<Rightarrow> string \<Rightarrow> string" where
  "zfill w s = replicate (w - length s) CHR ''0'' @ s"

definition strftime_Ymd :: "'a date_scheme \<Rightarrow> string" where
  "strftime_Ymd d =
     zfill 4 (str_nat (nat (year d))) @ ''-'' @ zfill 2 (str_nat (nat (month d))) @ ''-''
       @ zfill 2 (str_nat (nat (day d)))"

section \<open>Formatting a float with \<^verbatim>\<open>:.1f\<close>\<close>

text \<open>
  The conversion is correctly rounded: the exact value of the double is rounded to one
  decimal, ties to even.  The sign is printed when the sign bit is set, also on a zero.
\<close>

definition round_half_even :: "rat \<Rightarrow> int" where
  "round_half_even q =
     (let f = \<lfloor>q\<rfloor>; r = q - of_int f
      in if r < 1 / 2 then f else if 1 / 2 < r then f + 1 else if even f then f else f + 1)"

definition format_1f :: "pyfloat \<Rightarrow> string" where
  "format_1f x =
     (case x of
        NaN \<Rightarrow> ''nan''
      | PosInf \<Rightarrow> ''inf''
      | NegInf \<Rightarrow> ''-inf''
      | NegZero \<Rightarrow> ''-0.0''
      | Finite q \<Rightarrow>
          (let n = nat (round_half_even (\<bar>q\<bar> * 10))
           in (if q < 0 then ''-'' else '''') @ str_nat (n div 10) @ ''.'' @ [digit_char (n mod 10)]))"

section \<open>The service: \<^verbatim>\<open>app/main.py\<close>\<close>

subsection \<open>Loading the two artifacts\<close>

text \<open>
  A feature frame is the ordered list of its columns, each a name with its cells; a cell of
  the only column built here is a pandas \<^verbatim>\<open>Timestamp\<close>, a \<open>datetime\<close>.

  A model artifact is opaque: all the service does with it is call \<^verbatim>\<open>predict\<close> on a frame.
  \<open>Inl msg\<close> is "\<^verbatim>\<open>predict\<close> raised an \<^verbatim>\<open>Exception\<close> \<open>e\<close> with \<^verbatim>\<open>str(e)\<close> = \<open>msg\<close>", \<open>Inr ys\<close> is the
  array it returned: class labels for the classifier, floats for the regressor.
\<close>

type_synonym frame = "(string \<times> datetime list) list"

type_synonym 'a predictor = "frame \<Rightarrow> string + 'a list"

record globals =
  rain_clf :: "int predictor option"
  precip_reg :: "pyfloat predictor option"
  load_error_msg :: "string option"

text \<open>
  \<^verbatim>\<open>_load_model\<close>.  The file system and joblib's deserialiser are parameters: \<open>exists p\<close>
  is \<^verbatim>\<open>Path(p).exists()\<close>, and \<open>load p\<close> is the outcome of \<^verbatim>\<open>joblib.load\<close> on \<open>p\<close>.
\<close>

definition load_model :: "(string \<Rightarrow> bool) \<Rightarrow> (string \<Rightarrow> exn + 'm) \<Rightarrow> string \<Rightarrow> exn + 'm" where
  "load_model exists load path =
     (if \<not> exists path then Inl (FileNotFoundError (''Model file not found: '' @ path))
      else load path)"

text \<open>
  The \<^verbatim>\<open>except FileNotFoundError as e\<close> clause of the module-level \<^verbatim>\<open>try\<close>; any other
  exception leaves the module, and the process does not start.
\<close>

fun except_FileNotFoundError :: "exn \<Rightarrow> exn + globals" where
  "except_FileNotFoundError (FileNotFoundError msg) =
     Inr \<lparr>rain_clf = None, precip_reg = None, load_error_msg = Some msg\<rparr>"
| "except_FileNotFoundError e = Inl e"

text \<open>
  The module-level \<^verbatim>\<open>try\<close> / \<^verbatim>\<open>except\<close> / \<^verbatim>\<open>else\<close>, with the values of \<^verbatim>\<open>RAIN_MODEL_PATH\<close> and
  \<^verbatim>\<open>PRECIP_MODEL_PATH\<close> (read from the environment) as arguments.
\<close>

definition startup ::
  "(string \<Rightarrow> bool) \<Rightarrow> (string \<Rightarrow> exn + int predictor) \<Rightarrow> (string \<Rightarrow> exn + pyfloat predictor)
     \<Rightarrow> string \<Rightarrow> string \<Rightarrow> exn + globals" where
  "startup exists load_clf load_reg RAIN_MODEL_PATH PRECIP_MODEL_PATH =
     (case load_model exists load_clf RAIN_MODEL_PATH of
        Inl e \<Rightarrow> except_FileNotFoundError e
      | Inr clf \<Rightarrow>
          (case load_model exists load_reg PRECIP_MODEL_PATH of
             Inl e \<Rightarrow> except_FileNotFoundError e
           | Inr reg \<Rightarrow>
               Inr \<lparr>rain_clf = Some clf, precip_reg = Some reg, load_error_msg = None\<rparr>))"

subsection \<open>Helpers\<close>

definition parse_date :: "string \<Rightarrow> exn + datetime" where
  "parse_date date_str =
     (case strptime_Ymd date_str of
        Inr d \<Rightarrow> Inr d
      | Inl (ValueError msg) \<Rightarrow>
          Inl (HTTPException 400 ''Invalid date format. Expected YYYY-MM-DD.'')
      | Inl e \<Rightarrow> Inl e)"

text \<open>
  \<^verbatim>\<open>pd.to_datetime\<close> on a \<^verbatim>\<open>date\<close> gives the \<^verbatim>\<open>Timestamp\<close> of its midnight, or raises when the
  date is outside the range a \<^verbatim>\<open>Timestamp\<close> can hold.  That range depends on the resolution
  pandas works at, so it is a parameter: \<open>in_bounds d\<close> says that \<open>d\<close> is representable.
\<close>

definition date_of :: "datetime \<Rightarrow> date" where
  "date_of d = \<lparr>year = year d, month = month d, day = day d\<rparr>"

definition to_datetime :: "(date \<Rightarrow> bool) \<Rightarrow> date \<Rightarrow> exn + datetime" where
  "to_datetime in_bounds d =
     (if in_bounds d
      then Inr \<lparr>year = year d, month = month d, day = day d,
                hour = 0, minute = 0, second = 0, microsecond = 0\<rparr>
      else Inl (OutOfBoundsDatetime ''Out of bounds timestamp''))"

definition build_features_for_date :: "(date \<Rightarrow> bool) \<Rightarrow> datetime \<Rightarrow> exn + frame" where
  "build_features_for_date in_bounds d =
     (case to_datetime in_bounds (date_of d) of
        Inl e \<Rightarrow> Inl e
      | Inr ts \<Rightarrow> Inr [(''date'', [ts])])"

text \<open>\<^verbatim>\<open>ys[0]\<close> on the array a model returned.\<close>

fun getitem0 :: "'a list \<Rightarrow> exn + 'a" where
  "getitem0 [] = Inl (IndexError ''index 0 is out of bounds for axis 0 with size 0'')"
| "getitem0 (y # ys) = Inr y"

text \<open>\<^verbatim>\<open>load_error_msg or ''\<close> and the truth value of \<^verbatim>\<open>load_error_msg\<close>.\<close>

fun or_empty :: "string option \<Rightarrow> string" where
  "or_empty None = ''''"
| "or_empty (Some s) = s"

fun truthy :: "string option \<Rightarrow> bool" where
  "truthy None = False"
| "truthy (Some s) = (s \<noteq> [])"

subsection \<open>Handlers\<close>

definition health_check :: "globals \<Rightarrow> exn + string" where
  "health_check g =
     (case load_error_msg g of
        Some msg \<Rightarrow>
          if truthy (Some msg) then Inr (''Startup warning: '' @ msg)
          else Inr ''API is ready. Models loaded.''
      | None \<Rightarrow> Inr ''API is ready. Models loaded.'')"

definition predict_rain :: "(date \<Rightarrow> bool) \<Rightarrow> globals \<Rightarrow> string \<Rightarrow> exn + json" where
  "predict_rain in_bounds g date_str =
     (case rain_clf g of
        None \<Rightarrow>
          Inl (HTTPException 500 (''Rain model not loaded. '' @ or_empty (load_error_msg g)))
      | Some clf \<Rightarrow>
     (case parse_date date_str of Inl e \<Rightarrow> Inl e | Inr d0 \<Rightarrow>
     (case datetime_add_days d0 7 of Inl e \<Rightarrow> Inl e | Inr d7 \<Rightarrow>
     (case build_features_for_date in_bounds d0 of Inl e \<Rightarrow> Inl e | Inr X \<Rightarrow>
     (case clf X of
        Inl msg \<Rightarrow> Inl (HTTPException 500 (''Inference error (rain): '' @ msg))
      | Inr pred \<Rightarrow>
     (case getitem0 pred of Inl e \<Rightarrow> Inl e | Inr p \<Rightarrow>
        Inr (JObj [(''input_date'', JStr (strftime_Ymd d0)),
                   (''prediction'', JObj [(''date'', JStr (strftime_Ymd d7)),
                                          (''will_rain'', JBool (p \<noteq> 0))])])))))))"

definition predict_precipitation_fall :: "(date \<Rightarrow> bool) \<Rightarrow> globals \<Rightarrow> string \<Rightarrow> exn + json" where
  "predict_precipitation_fall in_bounds g date_str =
     (case precip_reg g of
        None \<Rightarrow>
          Inl (HTTPException 500
                 (''Precipitation model not loaded. '' @ or_empty (load_error_msg g)))
      | Some reg \<Rightarrow>
     (case parse_date date_str of Inl e \<Rightarrow> Inl e | Inr d0 \<Rightarrow>
     (case datetime_add_days d0 1 of Inl e \<Rightarrow> Inl e | Inr start_date \<Rightarrow>
     (case datetime_add_days d0 3 of Inl e \<Rightarrow> Inl e | Inr end_date \<Rightarrow>
     (case build_features_for_date in_bounds d0 of Inl e \<Rightarrow> Inl e | Inr X \<Rightarrow>
     (case (case reg X of
              Inl msg \<Rightarrow> Inl msg
            | Inr ys \<Rightarrow> (case ys of
                           [] \<Rightarrow> Inl ''index 0 is out of bounds for axis 0 with size 0''
                         | y # _ \<Rightarrow> Inr y)) of
        Inl msg \<Rightarrow> Inl (HTTPException 500 (''Inference error (precipitation): '' @ msg))
      | Inr y_hat \<Rightarrow>
          Inr (JObj [(''input_date'', JStr (strftime_Ymd d0)),
                     (''prediction'', JObj [(''start_date'', JStr (strftime_Ymd start_date)),
                                            (''end_date'', JStr (strftime_Ymd end_date)),
                                            (''precipitation_fall'', JStr (format_1f y_hat))])])))))))"

section \<open>Definitions for the proofs\<close>

text \<open>
  The month search at the end of \<open>ord2ymd\<close>, and the two month tables with the leap flag
  as an argument, as \<open>ord2ymd\<close> uses them.
\<close>

definition month_day_of :: "bool \<Rightarrow> int \<Rightarrow> int \<times> int" where
  "month_day_of leapyear n =
     (let m = (n + 50) div 32;
          preceding = DAYS_BEFORE_MONTH ! nat m + (if m > 2 \<and> leapyear then 1 else 0)
      in if preceding > n
         then let m = m - 1;
                  preceding = preceding - (DAYS_IN_MONTH ! nat m + (if m = 2 \<and> leapyear then 1 else 0))
              in (m, n - preceding + 1)
         else (m, n - preceding + 1))"

definition in_month :: "bool \<Rightarrow> int \<Rightarrow> int" where
  "in_month leap m = (if m = 2 \<and> leap then 29 else DAYS_IN_MONTH ! nat m)"

definition before_month :: "bool \<Rightarrow> int \<Rightarrow> int" where
  "before_month leap m = DAYS_BEFORE_MONTH ! nat m + (if m > 2 \<and> leap then 1 else 0)"

text \<open>
  The Gregorian calendar, stated without the tables of the code: the length of a month, the
  dates of the calendar from year 1 on, and the day after a date.
\<close>

definition gregorian_leap :: "int \<Rightarrow> bool" where
  "gregorian_leap y \<longleftrightarrow> 4 dvd y \<and> (\<not> 100 dvd y \<or> 400 dvd y)"

definition month_length :: "int \<Rightarrow> int \<Rightarrow> int" where
  "month_length y m =
     (if m = 2 then (if gregorian_leap y then 29 else 28)
      else if m \<in> {4, 6, 9, 11} then 30 else 31)"

definition calendar_date :: "int \<times> int \<times> int \<Rightarrow> bool" where
  "calendar_date = (\<lambda>(y, m, d). 1 \<le> y \<and> 1 \<le> m \<and> m \<le> 12 \<and> 1 \<le> d \<and> d \<le> month_length y m)"

definition ordinal_of :: "int \<times> int \<times> int \<Rightarrow> int" where
  "ordinal_of = (\<lambda>(y, m, d). ymd2ord y m d)"

fun next_day :: "int \<times> int \<times> int \<Rightarrow> int \<times> int \<times> int" where
  "next_day (y, m, d) =
     (if d < month_length y m then (y, m, d + 1)
      else if m < 12 then (y, m + 1, 1)
      else (y + 1, 1, 1))"

text \<open>
  The fields of a date as a triple, the date \<open>k\<close> days after a date of the calendar, and
  the \<open>datetime\<close> at midnight of a date.
\<close>

definition ymd :: "'a date_scheme \<Rightarrow> int \<times> int \<times> int" where
  "ymd d = (year d, month d, day d)"

definition days_after :: "nat \<Rightarrow> int \<times> int \<times> int \<Rightarrow> int \<times> int \<times> int" where
  "days_after k x = (next_day ^^ k) x"

definition midnight :: "int \<times> int \<times> int \<Rightarrow> datetime" where
  "midnight = (\<lambda>(y, m, d). \<lparr>year = y, month = m, day = d,
                               hour = 0, minute = 0, second = 0, microsecond = 0\<rparr>)"




section \<open>Example states\<close>

text \<open>A classifier that always predicts rain, a regressor that always predicts 28.16.\<close>

definition example_clf :: "int predictor" where
  "example_clf X = Inr [1]"

definition example_reg :: "pyfloat predictor" where
  "example_reg X = Inr [Finite (704 / 25)]"

definition ready_globals :: globals where
  "ready_globals = \<lparr>rain_clf = Some example_clf, precip_reg = Some example_reg, load_error_msg = None\<rparr>"

definition degraded_globals :: globals where
  "degraded_globals =
     \<lparr>rain_clf = None, precip_reg = None,
      load_error_msg = Some ''Model file not found: models/XGBReg.joblib''\<rparr>"



definition picky_clf :: "int predictor" where
  "picky_clf X = (if X = [(''date'', [midnight (2023, 1, 1)])] then Inr [1] else Inl ''unseen date'')"


section \<open>The calendar arithmetic\<close>

lemma month_cases:
  fixes m :: int
  assumes "1 \<le> m" "m \<le> 12"
  obtains "m = 1" | "m = 2" | "m = 3" | "m = 4" | "m = 5" | "m = 6"
        | "m = 7" | "m = 8" | "m = 9" | "m = 10" | "m = 11" | "m = 12"
proof -
  have "m = 1 \<or> m = 2 \<or> m = 3 \<or> m = 4 \<or> m = 5 \<or> m = 6
      \<or> m = 7 \<or> m = 8 \<or> m = 9 \<or> m = 10 \<or> m = 11 \<or> m = 12"
    using assms by arith
  then show thesis
    using that by blast
qed

lemma div32_eqI:
  fixes x q :: int
  assumes "32 * q \<le> x" "x < 32 * q + 32"
  shows "x div 32 = q"
  by (rule int_div_pos_eq [where r = "x - 32 * q"]) (use assms in simp_all)

text \<open>The estimate is the month itself from its 14th-or-so day on, and the month after before.\<close>

lemma month_day_of_low:
  assumes "(n + 50) div 32 = m + 1" "1 \<le> m" "m \<le> 11"
    "DAYS_BEFORE_MONTH ! nat (m + 1) + (if m + 1 > 2 \<and> leap then 1 else 0) > n"
  shows "month_day_of leap n = (m, n - before_month leap m + 1)"
proof -
  have "m \<le> 12"
    using assms(3) by simp
  with assms(2) show ?thesis
    by (cases rule: month_cases [of m])
       (use assms in \<open>simp_all add: month_day_of_def Let_def before_month_def DAYS_BEFORE_MONTH_def DAYS_IN_MONTH_def\<close>)
qed

lemma month_day_of_high:
  assumes "(n + 50) div 32 = m" "before_month leap m \<le> n"
  shows "month_day_of leap n = (m, n - before_month leap m + 1)"
  using assms by (simp add: month_day_of_def Let_def before_month_def)

lemma before_month_Suc:
  assumes "1 \<le> m" "m \<le> 11"
  shows "before_month leap (m + 1) = before_month leap m + in_month leap m"
proof -
  have "m \<le> 12"
    using assms(2) by simp
  with assms(1) show ?thesis
    by (cases rule: month_cases [of m])
       (use assms in \<open>simp_all add: before_month_def in_month_def DAYS_BEFORE_MONTH_def DAYS_IN_MONTH_def\<close>)
qed

lemma month_day_of_before:
  assumes "1 \<le> m" "m \<le> 12" "1 \<le> d" "d \<le> in_month leap m"
  shows "month_day_of leap (before_month leap m + d - 1) = (m, d)"
proof -
  let ?n = "before_month leap m + d - 1"
  have est: "(?n + 50) div 32 = m \<or> ((?n + 50) div 32 = m + 1 \<and> m \<le> 11)"
    using assms
    by (cases rule: month_cases [of m]; cases leap)
       (simp_all add: before_month_def in_month_def DAYS_BEFORE_MONTH_def DAYS_IN_MONTH_def, (intro div32_eqI | linarith)+)
  from est show ?thesis
  proof
    assume "(?n + 50) div 32 = m"
    then have "month_day_of leap ?n = (m, ?n - before_month leap m + 1)"
      using assms(3) by (intro month_day_of_high) simp_all
    then show ?thesis
      by simp
  next
    assume low: "(?n + 50) div 32 = m + 1 \<and> m \<le> 11"
    then have "before_month leap (m + 1) > ?n"
      using assms before_month_Suc [of m leap] by simp
    then have "month_day_of leap ?n = (m, ?n - before_month leap m + 1)"
      using low assms(1) by (intro month_day_of_low) (simp_all add: before_month_def)
    then show ?thesis
      by simp
  qed
qed

lemma year_parts:
  fixes Y :: int
  assumes "0 \<le> Y"
  obtains a b c e where "Y = 400 * a + 100 * b + 4 * c + e"
    "0 \<le> a" "0 \<le> b" "b < 4" "0 \<le> c" "c < 25" "0 \<le> e" "e < 4"
proof -
  define r where "r = Y mod 400"
  define s where "s = r mod 100"
  have r: "0 \<le> r" "r < 400" and s: "0 \<le> s" "s < 100"
    by (simp_all add: r_def s_def)
  have "Y = 400 * (Y div 400) + r"
    by (simp add: r_def)
  moreover have "r = 100 * (r div 100) + s"
    by (simp add: s_def)
  moreover have "s = 4 * (s div 4) + s mod 4"
    by simp
  ultimately have "Y = 400 * (Y div 400) + 100 * (r div 100) + 4 * (s div 4) + s mod 4"
    by linarith
  moreover have "0 \<le> Y div 400"
    using assms by simp
  moreover have "0 \<le> r div 100" "r div 100 < 4"
    using r by simp_all
  moreover have "0 \<le> s div 4" "s div 4 < 25"
    using s by simp_all
  moreover have "0 \<le> s mod 4" "s mod 4 < 4"
    by simp_all
  ultimately show thesis
    using that by blast
qed

lemma days_before_year_parts:
  fixes a b c e :: int
  assumes "0 \<le> b" "b < 4" "0 \<le> c" "c < 25" "0 \<le> e" "e < 4"
  shows "days_before_year (400 * a + 100 * b + 4 * c + e + 1)
           = 146097 * a + 36524 * b + 1461 * c + 365 * e"
proof -
  let ?Y = "400 * a + 100 * b + 4 * c + e"
  have d4: "?Y div 4 = 100 * a + 25 * b + c"
    by (rule int_div_pos_eq [where r = e]) (use assms in simp_all)
  have d100: "?Y div 100 = 4 * a + b"
    by (rule int_div_pos_eq [where r = "4 * c + e"]) (use assms in simp_all)
  have d400: "?Y div 400 = a"
    by (rule int_div_pos_eq [where r = "100 * b + 4 * c + e"]) (use assms in simp_all)
  show ?thesis
    by (simp add: days_before_year_def Let_def d4 d100 d400)
qed

lemma mod_top_iff:
  fixes x n :: int
  assumes "1 \<le> x" "x \<le> n"
  shows "x mod n = 0 \<longleftrightarrow> x = n"
proof (cases "x = n")
  case True
  then show ?thesis by simp
next
  case False
  with assms have "x mod n = x"
    by simp
  with assms False show ?thesis
    by simp
qed

lemma is_leap_parts:
  fixes a b c e :: int
  assumes "0 \<le> b" "b < 4" "0 \<le> c" "c < 25" "0 \<le> e" "e < 4"
  shows "is_leap (400 * a + 100 * b + 4 * c + e + 1) \<longleftrightarrow> e = 3 \<and> (c \<noteq> 24 \<or> b = 3)"
proof -
  let ?y = "400 * a + 100 * b + 4 * c + e + 1"
  have "?y = 4 * (100 * a + 25 * b + c) + (e + 1)"
    by simp
  then have y4: "?y mod 4 = (e + 1) mod 4"
    by (metis mod_mult_self4)
  have t4: "(e + 1) mod 4 = 0 \<longleftrightarrow> e + 1 = 4"
    using assms by (intro mod_top_iff) simp_all
  have a4: "e + 1 = 4 \<longleftrightarrow> e = 3"
    by arith
  have m4: "?y mod 4 = 0 \<longleftrightarrow> e = 3"
    by (simp only: y4 t4 a4)
  have "?y = 100 * (4 * a + b) + (4 * c + e + 1)"
    by simp
  then have y100: "?y mod 100 = (4 * c + e + 1) mod 100"
    by (metis mod_mult_self4)
  have t100: "(4 * c + e + 1) mod 100 = 0 \<longleftrightarrow> 4 * c + e + 1 = 100"
    using assms by (intro mod_top_iff) simp_all
  have a100: "4 * c + e + 1 = 100 \<longleftrightarrow> c = 24 \<and> e = 3"
    using assms by arith
  have m100: "?y mod 100 = 0 \<longleftrightarrow> c = 24 \<and> e = 3"
    by (simp only: y100 t100 a100)
  have "?y = 400 * a + (100 * b + 4 * c + e + 1)"
    by simp
  then have y400: "?y mod 400 = (100 * b + 4 * c + e + 1) mod 400"
    by (metis mod_mult_self4)
  have t400: "(100 * b + 4 * c + e + 1) mod 400 = 0 \<longleftrightarrow> 100 * b + 4 * c + e + 1 = 400"
    using assms by (intro mod_top_iff) simp_all
  have a400: "100 * b + 4 * c + e + 1 = 400 \<longleftrightarrow> b = 3 \<and> c = 24 \<and> e = 3"
    using assms by arith
  have m400: "?y mod 400 = 0 \<longleftrightarrow> b = 3 \<and> c = 24 \<and> e = 3"
    by (simp only: y400 t400 a400)
  show ?thesis
    unfolding is_leap_def m4 m100 m400 by blast
qed

lemma ord2ymd_unfold:
  assumes n: "n0 - 1 = 146097 * q400 + r1" "0 \<le> r1" "r1 < 146097"
    and r1: "r1 = 36524 * q100 + r2" "0 \<le> r2" "r2 < 36524"
    and r2: "r2 = 1461 * q4 + r3" "0 \<le> r3" "r3 < 1461"
    and r3: "r3 = 365 * q1 + r4" "0 \<le> r4" "r4 < 365"
  shows "ord2ymd n0 =
     (if q1 = 4 \<or> q100 = 4 then (400 * q400 + 100 * q100 + 4 * q4 + q1, 12, 31)
      else (case month_day_of (q1 = 3 \<and> (q4 \<noteq> 24 \<or> q100 = 3)) r4 of
              (m, d) \<Rightarrow> (400 * q400 + 100 * q100 + 4 * q4 + q1 + 1, m, d)))"
proof -
  have d1: "(n0 - 1) div DI400Y = q400" "(n0 - 1) mod DI400Y = r1"
    unfolding DI400Y_def
    by (rule int_div_pos_eq [OF n], rule int_mod_pos_eq [OF n])
  have d2: "r1 div DI100Y = q100" "r1 mod DI100Y = r2"
    unfolding DI100Y_def
    by (rule int_div_pos_eq [OF r1], rule int_mod_pos_eq [OF r1])
  have d3: "r2 div DI4Y = q4" "r2 mod DI4Y = r3"
    unfolding DI4Y_def
    by (rule int_div_pos_eq [OF r2], rule int_mod_pos_eq [OF r2])
  have d4: "r3 div 365 = q1" "r3 mod 365 = r4"
    by (rule int_div_pos_eq [OF r3], rule int_mod_pos_eq [OF r3])
  show ?thesis
    unfolding ord2ymd_def Let_def d1 d2 d3 d4 month_day_of_def
    by (simp add: Let_def)
qed

lemma days_in_month_leap: "days_in_month y m = in_month (is_leap y) m"
  by (simp add: days_in_month_def in_month_def)

lemma days_before_month_leap: "days_before_month y m = before_month (is_leap y) m"
  by (simp add: days_before_month_def before_month_def)

lemma day_of_year_bound:
  assumes "1 \<le> m" "m \<le> 12" "1 \<le> d" "d \<le> in_month leap m"
  shows "0 \<le> before_month leap m + d - 1"
    and "before_month leap m + d - 1 < 365 \<or> (before_month leap m + d - 1 = 365 \<and> leap \<and> m = 12 \<and> d = 31)"
  using assms(1,2)
  by (cases rule: month_cases [of m];
      use assms in \<open>simp add: before_month_def in_month_def DAYS_BEFORE_MONTH_def DAYS_IN_MONTH_def split: if_splits\<close>;
      linarith)+

lemma ord2ymd_parts:
  fixes a b c e k :: int
  assumes "0 \<le> b" "b < 4" "0 \<le> c" "c < 25" "0 \<le> e" "e < 4" "0 \<le> k"
    and "k < 365 \<or> (k = 365 \<and> e = 3 \<and> (c \<noteq> 24 \<or> b = 3))"
  shows "ord2ymd (146097 * a + 36524 * b + 1461 * c + 365 * e + k + 1) =
     (if k = 365 then (400 * a + 100 * b + 4 * c + e + 1, 12, 31)
      else (case month_day_of (e = 3 \<and> (c \<noteq> 24 \<or> b = 3)) k of
              (m, d) \<Rightarrow> (400 * a + 100 * b + 4 * c + e + 1, m, d)))"
proof -
  let ?n0 = "146097 * a + 36524 * b + 1461 * c + 365 * e + k + 1"
  consider (plain) "k < 365" | (last4) "k = 365" "e = 3" "c \<noteq> 24" | (last400) "k = 365" "e = 3" "c = 24" "b = 3"
    using assms(8) by blast
  then show ?thesis
  proof cases
    case plain
    have "ord2ymd ?n0 =
      (if e = 4 \<or> b = 4 then (400 * a + 100 * b + 4 * c + e, 12, 31)
       else (case month_day_of (e = 3 \<and> (c \<noteq> 24 \<or> b = 3)) k of
               (m, d) \<Rightarrow> (400 * a + 100 * b + 4 * c + e + 1, m, d)))"
      by (rule ord2ymd_unfold [where ?r1.0 = "36524 * b + 1461 * c + 365 * e + k"
              and ?r2.0 = "1461 * c + 365 * e + k" and ?r3.0 = "365 * e + k"])
         (use assms plain in simp_all)
    with assms plain show ?thesis
      by simp
  next
    case last4
    have "ord2ymd ?n0 =
      (if (4::int) = 4 \<or> b = 4 then (400 * a + 100 * b + 4 * c + 4, 12, 31)
       else (case month_day_of ((4::int) = 3 \<and> (c \<noteq> 24 \<or> b = 3)) 0 of
               (m, d) \<Rightarrow> (400 * a + 100 * b + 4 * c + 4 + 1, m, d)))"
      by (rule ord2ymd_unfold [where ?r1.0 = "36524 * b + 1461 * c + 1460"
              and ?r2.0 = "1461 * c + 1460" and ?r3.0 = "1460"])
         (use assms last4 in simp_all)
    with last4 show ?thesis
      by simp
  next
    case last400
    have "ord2ymd ?n0 =
      (if (0::int) = 4 \<or> (4::int) = 4 then (400 * a + 100 * 4 + 4 * 0 + 0, 12, 31)
       else (case month_day_of ((0::int) = 3 \<and> ((0::int) \<noteq> 24 \<or> (4::int) = 3)) 0 of
               (m, d) \<Rightarrow> (400 * a + 100 * 4 + 4 * 0 + 0 + 1, m, d)))"
      by (rule ord2ymd_unfold [where ?r1.0 = "146096" and ?r2.0 = 0 and ?r3.0 = 0])
         (use assms last400 in simp_all)
    with last400 show ?thesis
      by simp
  qed
qed

lemma ord2ymd_ymd2ord:
  assumes "1 \<le> y" "1 \<le> m" "m \<le> 12" "1 \<le> d" "d \<le> days_in_month y m"
  shows "ord2ymd (ymd2ord y m d) = (y, m, d)"
proof -
  from assms(1) have "0 \<le> y - 1"
    by simp
  then obtain a b c e where Y: "y - 1 = 400 * a + 100 * b + 4 * c + e"
    and bounds: "0 \<le> b" "b < 4" "0 \<le> c" "c < 25" "0 \<le> e" "e < 4"
    by (rule year_parts)
  have y: "y = 400 * a + 100 * b + 4 * c + e + 1"
    using Y by simp
  define leap where "leap = is_leap y"
  define k where "k = before_month leap m + d - 1"
  have leap: "leap \<longleftrightarrow> e = 3 \<and> (c \<noteq> 24 \<or> b = 3)"
    unfolding leap_def y using bounds by (rule is_leap_parts)
  have d: "d \<le> in_month leap m"
    using assms(5) by (simp add: days_in_month_leap leap_def)
  have k0: "0 \<le> k" and k1: "k < 365 \<or> (k = 365 \<and> leap \<and> m = 12 \<and> d = 31)"
    unfolding k_def using assms(2,3,4) d by (rule day_of_year_bound)+
  have ord: "ymd2ord y m d = 146097 * a + 36524 * b + 1461 * c + 365 * e + k + 1"
    using days_before_year_parts [OF bounds, of a]
    by (simp add: ymd2ord_def days_before_month_leap k_def leap_def y)
  have "k < 365 \<or> (k = 365 \<and> e = 3 \<and> (c \<noteq> 24 \<or> b = 3))"
    using k1 leap by blast
  with bounds k0 have "ord2ymd (146097 * a + 36524 * b + 1461 * c + 365 * e + k + 1) =
     (if k = 365 then (400 * a + 100 * b + 4 * c + e + 1, 12, 31)
      else (case month_day_of (e = 3 \<and> (c \<noteq> 24 \<or> b = 3)) k of
              (m', d') \<Rightarrow> (400 * a + 100 * b + 4 * c + e + 1, m', d')))"
    by (rule ord2ymd_parts)
  then have "ord2ymd (ymd2ord y m d) =
     (if k = 365 then (y, 12, 31)
      else (case month_day_of leap k of (m', d') \<Rightarrow> (y, m', d')))"
    by (simp only: ord [symmetric] y [symmetric] leap [symmetric])
  moreover have "month_day_of leap k = (m, d)"
    unfolding k_def using assms(2,3,4) d by (rule month_day_of_before)
  ultimately show ?thesis
    using k1 by auto
qed

lemma gregorian_leap_is_leap: "gregorian_leap y = is_leap y"
  by (simp add: gregorian_leap_def is_leap_def mod_eq_0_iff_dvd)

lemma month_length_leap:
  assumes "1 \<le> m" "m \<le> 12"
  shows "month_length y m = in_month (is_leap y) m"
  using assms
  by (cases rule: month_cases [of m])
     (simp_all add: month_length_def in_month_def gregorian_leap_is_leap DAYS_IN_MONTH_def)

lemma div_add1_int:
  fixes x n :: int
  assumes "0 < n"
  shows "(x + 1) div n = x div n + (if (x + 1) mod n = 0 then 1 else 0)"
proof (cases "x mod n = n - 1")
  case True
  have "x = n * (x div n) + x mod n"
    by simp
  then have "x = n * (x div n) + (n - 1)"
    using True by simp
  then have e: "x + 1 = n * (x div n + 1) + 0"
    by (simp add: distrib_left)
  have "(x + 1) div n = x div n + 1"
    using assms by (intro int_div_pos_eq [OF e]) simp_all
  moreover have "(x + 1) mod n = 0"
    using assms by (intro int_mod_pos_eq [OF e]) simp_all
  ultimately show ?thesis
    by simp
next
  case False
  have "0 \<le> x mod n" "x mod n < n"
    using assms by simp_all
  with False have r: "0 \<le> x mod n + 1" "x mod n + 1 < n"
    by simp_all
  have e: "x + 1 = n * (x div n) + (x mod n + 1)"
    by simp
  have "(x + 1) div n = x div n"
    by (rule int_div_pos_eq [OF e r])
  moreover have "(x + 1) mod n = x mod n + 1"
    by (rule int_mod_pos_eq [OF e r])
  ultimately show ?thesis
    using \<open>0 \<le> x mod n\<close> by simp
qed

lemma days_before_year_Suc:
  "days_before_year (y + 1) = days_before_year y + 365 + (if is_leap y then 1 else 0)"
proof -
  define p4 p100 p400 where "p4 \<longleftrightarrow> y mod 4 = 0" and "p100 \<longleftrightarrow> y mod 100 = 0"
    and "p400 \<longleftrightarrow> y mod 400 = 0"
  have "y mod 100 mod 4 = y mod 4" "y mod 400 mod 100 = y mod 100"
    by (rule mod_mod_cancel; simp)+
  then have a: "p100 \<longrightarrow> p4" and b: "p400 \<longrightarrow> p100"
    unfolding p4_def p100_def p400_def by auto
  have leap: "is_leap y \<longleftrightarrow> p4 \<and> (\<not> p100 \<or> p400)"
    by (simp add: is_leap_def p4_def p100_def p400_def)
  have d4: "y div 4 = (y - 1) div 4 + (if p4 then 1 else 0)"
    using div_add1_int [of 4 "y - 1"] by (simp add: p4_def)
  have d100: "y div 100 = (y - 1) div 100 + (if p100 then 1 else 0)"
    using div_add1_int [of 100 "y - 1"] by (simp add: p100_def)
  have d400: "y div 400 = (y - 1) div 400 + (if p400 then 1 else 0)"
    using div_add1_int [of 400 "y - 1"] by (simp add: p400_def)
  have "days_before_year (y + 1) = y * 365 + y div 4 - y div 100 + y div 400"
    by (simp add: days_before_year_def)
  also have "\<dots> = days_before_year y + 365
      + (if p4 then 1 else 0) - (if p100 then 1 else 0) + (if p400 then 1 else 0)"
    unfolding d4 d100 d400 by (simp add: days_before_year_def Let_def algebra_simps)
  also have "\<dots> = days_before_year y + 365 + (if is_leap y then 1 else 0)"
    unfolding leap using a b by (cases p4; cases p100; cases p400; simp)
  finally show ?thesis .
qed

lemma calendar_date_next_day:
  assumes "calendar_date x"
  shows "calendar_date (next_day x)"
proof -
  obtain y m d where x: "x = (y, m, d)"
    by (cases x)
  have "1 \<le> month_length y' m'" for y' m'
    by (simp add: month_length_def)
  with assms show ?thesis
    by (auto simp add: x calendar_date_def)
qed

lemma ordinal_of_next_day:
  assumes "calendar_date x"
  shows "ordinal_of (next_day x) = ordinal_of x + 1"
proof -
  obtain y m d where x: "x = (y, m, d)"
    by (cases x)
  from assms have m: "1 \<le> m" "m \<le> 12" and d: "1 \<le> d" "d \<le> month_length y m"
    by (simp_all add: x calendar_date_def)
  have len: "month_length y m = in_month (is_leap y) m"
    using m by (rule month_length_leap)
  consider (same) "d < month_length y m"
    | (month) "d = month_length y m" "m \<le> 11"
    | (year) "d = month_length y m" "m = 12"
    using d m by linarith
  then show ?thesis
  proof cases
    case same
    then show ?thesis
      by (simp add: x ordinal_of_def ymd2ord_def)
  next
    case month
    then show ?thesis
      using before_month_Suc [OF m(1) month(2), of "is_leap y"]
      by (simp add: x ordinal_of_def ymd2ord_def days_before_month_leap len)
  next
    case year
    then show ?thesis
      using days_before_year_Suc [of y]
      by (simp add: x ordinal_of_def ymd2ord_def days_before_month_leap month_length_def
            before_month_def DAYS_BEFORE_MONTH_def)
  qed
qed

lemma funpow_next_day:
  assumes "calendar_date x"
  shows "calendar_date ((next_day ^^ k) x) \<and> ordinal_of ((next_day ^^ k) x) = ordinal_of x + int k"
proof (induction k)
  case 0
  from assms show ?case by simp
next
  case (Suc k)
  then show ?case
    by (simp add: calendar_date_next_day ordinal_of_next_day)
qed

lemma ord2ymd_ordinal_of:
  assumes "calendar_date x"
  shows "ord2ymd (ordinal_of x) = x"
proof -
  obtain y m d where x: "x = (y, m, d)"
    by (cases x)
  from assms have y: "1 \<le> y" and m: "1 \<le> m" "m \<le> 12" and d: "1 \<le> d" "d \<le> month_length y m"
    by (simp_all add: x calendar_date_def)
  have "d \<le> days_in_month y m"
    using d month_length_leap [OF m, of y] by (simp add: days_in_month_leap)
  with y m d show ?thesis
    by (simp add: x ordinal_of_def ord2ymd_ymd2ord)
qed

lemma ord2ymd_plus:
  assumes "calendar_date x"
  shows "ord2ymd (ordinal_of x + int k) = (next_day ^^ k) x"
  using funpow_next_day [OF assms, of k] ord2ymd_ordinal_of [of "(next_day ^^ k) x"]
  by simp

lemma days_before_year_mono:
  assumes "y \<le> y'"
  shows "days_before_year y \<le> days_before_year y'"
  using assms
proof (induction y' rule: int_ge_induct)
  case base
  show ?case by simp
next
  case (step i)
  then show ?case
    using days_before_year_Suc [of i] by simp
qed

lemma ordinal_of_bounds:
  assumes "calendar_date x"
  shows "1 \<le> ordinal_of x"
    and "fst x \<le> 9999 \<Longrightarrow> ordinal_of x \<le> MAXORDINAL"
    and "ordinal_of x \<le> MAXORDINAL \<Longrightarrow> fst x \<le> 9999"
proof -
  obtain y m d where x: "x = (y, m, d)"
    by (cases x)
  from assms have y: "1 \<le> y" and m: "1 \<le> m" "m \<le> 12" and d': "1 \<le> d" "d \<le> month_length y m"
    by (simp_all add: x calendar_date_def)
  have d: "1 \<le> d" "d \<le> in_month (is_leap y) m"
    using d' month_length_leap [OF m, of y] by simp_all
  have lo: "0 \<le> before_month (is_leap y) m + d - 1"
    and hi: "before_month (is_leap y) m + d - 1 < 365 \<or> (before_month (is_leap y) m + d - 1 = 365 \<and> is_leap y \<and> m = 12 \<and> d = 31)"
    using m d by (rule day_of_year_bound)+
  have "days_before_year 1 \<le> days_before_year y"
    using y by (rule days_before_year_mono)
  then have y0: "0 \<le> days_before_year y"
    by (simp add: days_before_year_def)
  show "1 \<le> ordinal_of x"
    using lo y0 by (simp add: x ordinal_of_def ymd2ord_def days_before_month_leap)
  have next_year: "ordinal_of x \<le> days_before_year (y + 1)"
    using hi days_before_year_Suc [of y]
    by (auto simp add: x ordinal_of_def ymd2ord_def days_before_month_leap)
  have this_year: "days_before_year y < ordinal_of x"
    using lo by (simp add: x ordinal_of_def ymd2ord_def days_before_month_leap)
  have max: "days_before_year 10000 = MAXORDINAL"
    by (simp add: days_before_year_def MAXORDINAL_def)
  show "ordinal_of x \<le> MAXORDINAL" if "fst x \<le> 9999"
  proof -
    from that have "y + 1 \<le> 10000"
      by (simp add: x)
    then have "days_before_year (y + 1) \<le> days_before_year 10000"
      by (rule days_before_year_mono)
    with next_year max show ?thesis
      by simp
  qed
  show "fst x \<le> 9999" if "ordinal_of x \<le> MAXORDINAL"
  proof (rule ccontr)
    assume "\<not> fst x \<le> 9999"
    then have "10000 \<le> y"
      by (simp add: x)
    then have "days_before_year 10000 \<le> days_before_year y"
      by (rule days_before_year_mono)
    with this_year max that show False
      by simp
  qed
qed

section \<open>Parsed dates and day arithmetic\<close>

lemma ymd_midnight [simp]: "ymd (midnight x) = x"
  by (cases x) (simp add: ymd_def midnight_def)

lemma strptime_Ymd_Inr:
  assumes "strptime_Ymd s = Inr dt"
  shows "dt = midnight (ymd dt)" and "calendar_date (ymd dt)" and "year dt \<le> 9999"
proof -
  from assms obtain y m d where chk: "check_date_fields y m d = Inr ()"
    and dt: "dt = midnight (y, m, d)"
    by (auto simp add: strptime_Ymd_def midnight_def Let_def split: option.splits if_splits sum.splits)
  from chk have y: "1 \<le> y" "y \<le> 9999" and m: "1 \<le> m" "m \<le> 12"
    and d: "1 \<le> d" "d \<le> days_in_month y m"
    by (simp_all add: check_date_fields_def MINYEAR_def MAXYEAR_def split: if_splits)
  show "dt = midnight (ymd dt)"
    by (simp add: dt)
  show "calendar_date (ymd dt)"
    using y m d month_length_leap [OF m, of y]
    by (simp add: dt calendar_date_def days_in_month_leap)
  show "year dt \<le> 9999"
    using y by (simp add: dt midnight_def)
qed

lemma parse_date_cases:
  "(\<exists>dt. parse_date s = Inr dt \<and> strptime_Ymd s = Inr dt)
   \<or> parse_date s = Inl (HTTPException 400 ''Invalid date format. Expected YYYY-MM-DD.'')"
proof (cases "strptime_Ymd s")
  case (Inr dt)
  then show ?thesis
    by (simp add: parse_date_def)
next
  case (Inl e)
  then have "\<exists>msg. e = ValueError msg"
    by (auto simp add: strptime_Ymd_def check_date_fields_def Let_def
          split: option.splits if_splits sum.splits)
  with Inl show ?thesis
    by (auto simp add: parse_date_def)
qed

lemma parse_date_Inr:
  assumes "parse_date s = Inr dt"
  shows "strptime_Ymd s = Inr dt" and "dt = midnight (ymd dt)" and "calendar_date (ymd dt)"
    and "year dt \<le> 9999"
proof -
  show p: "strptime_Ymd s = Inr dt"
    using assms parse_date_cases [of s] by auto
  show "dt = midnight (ymd dt)" and "calendar_date (ymd dt)" and "year dt \<le> 9999"
    using strptime_Ymd_Inr [OF p] by simp_all
qed

lemma toordinal_ymd: "toordinal d = ordinal_of (ymd d)"
  by (simp add: toordinal_def ordinal_of_def ymd_def)

lemma datetime_add_days_calendar:
  assumes "calendar_date (ymd d)"
  shows "datetime_add_days d (int k) =
     (if fst (days_after k (ymd d)) \<le> 9999
      then (case days_after k (ymd d) of (y, m, dd) \<Rightarrow> Inr (d\<lparr>year := y, month := m, day := dd\<rparr>))
      else Inl (OverflowError ''date value out of range''))"
proof -
  let ?x = "days_after k (ymd d)"
  have cal: "calendar_date ?x" and ord: "ordinal_of ?x = toordinal d + int k"
    using funpow_next_day [OF assms, of k] by (simp_all add: days_after_def toordinal_ymd)
  have pos: "0 < toordinal d + int k"
    using ordinal_of_bounds(1) [OF cal] ord by simp
  have range: "toordinal d + int k \<le> MAXORDINAL \<longleftrightarrow> fst ?x \<le> 9999"
    using ordinal_of_bounds(2,3) [OF cal] ord by auto
  have "ord2ymd (toordinal d + int k) = ?x"
    using ord2ymd_plus [OF assms, of k] by (simp add: days_after_def toordinal_ymd)
  with pos range show ?thesis
    by (simp add: datetime_add_days_def Let_def)
qed

lemma days_after_neq:
  assumes "calendar_date x" "0 < k"
  shows "days_after k x \<noteq> x"
proof
  assume "days_after k x = x"
  then have "ordinal_of (days_after k x) = ordinal_of x"
    by simp
  with funpow_next_day [OF assms(1), of k] assms(2) show False
    by (simp add: days_after_def)
qed




lemma parse_2023_01_01:
  "parse_date ''2023-01-01'' = Inr (midnight (2023, 1, 1))"
  by code_simp


lemma build_features_for_date_eq:
  "build_features_for_date ib d =
     (if ib (date_of d) then Inr [(''date'', [midnight (ymd d)])]
      else Inl (OutOfBoundsDatetime ''Out of bounds timestamp''))"
  by (simp add: build_features_for_date_def to_datetime_def date_of_def midnight_def ymd_def)

lemma midnight_inject: "midnight x = midnight x' \<longleftrightarrow> x = x'"
  by (cases x; cases x') (simp add: midnight_def)

lemma add_7_2023_01_01:
  "datetime_add_days (midnight (2023, 1, 1)) 7 = Inr (midnight (2023, 1, 8))"
  by code_simp

declare str_nat.simps [simp del]









section \<open>Start-up and the health endpoint\<close>

text \<open>
  Claim C4.  At start-up, a missing file at either path leaves both artifacts unset and
  records one message, that of the first failure met (the classifier's path is tried first,
  and the regressor's path is not tried once the classifier's has failed); when both files
  exist and deserialise, both artifacts are set and no message is recorded.
\<close>

theorem startup_coupled_failure:
  "(\<not> ex rp \<longrightarrow>
      startup ex lc lr rp pp =
        Inr \<lparr>rain_clf = None, precip_reg = None,
             load_error_msg = Some (''Model file not found: '' @ rp)\<rparr>)
   \<and> (ex rp \<and> lc rp = Inr clf \<and> \<not> ex pp \<longrightarrow>
      startup ex lc lr rp pp =
        Inr \<lparr>rain_clf = None, precip_reg = None,
             load_error_msg = Some (''Model file not found: '' @ pp)\<rparr>)
   \<and> (ex rp \<and> lc rp = Inr clf \<and> ex pp \<and> lr pp = Inr reg \<longrightarrow>
      startup ex lc lr rp pp =
        Inr \<lparr>rain_clf = Some clf, precip_reg = Some reg, load_error_msg = None\<rparr>)"
  by (simp add: startup_def load_model_def)

theorem startup_coupled_failure_witness:
  "startup (\<lambda>p. False) (\<lambda>p. Inr example_clf) (\<lambda>p. Inr example_reg)
      ''models/XGBClassifier.joblib'' ''models/XGBReg.joblib''
     = Inr \<lparr>rain_clf = None, precip_reg = None,
            load_error_msg = Some ''Model file not found: models/XGBClassifier.joblib''\<rparr>
   \<and> startup (\<lambda>p. p = ''models/XGBClassifier.joblib'') (\<lambda>p. Inr example_clf) (\<lambda>p. Inr example_reg)
      ''models/XGBClassifier.joblib'' ''models/XGBReg.joblib''
     = Inr degraded_globals
   \<and> startup (\<lambda>p. True) (\<lambda>p. Inr example_clf) (\<lambda>p. Inr example_reg)
      ''models/XGBClassifier.joblib'' ''models/XGBReg.joblib''
     = Inr ready_globals"
  using startup_coupled_failure [of "\<lambda>p. False" "''models/XGBClassifier.joblib''"
          "\<lambda>p. Inr example_clf" "\<lambda>p. Inr example_reg" "''models/XGBReg.joblib''" example_clf example_reg]
        startup_coupled_failure [of "\<lambda>p. p = ''models/XGBClassifier.joblib''" "''models/XGBClassifier.joblib''"
          "\<lambda>p. Inr example_clf" "\<lambda>p. Inr example_reg" "''models/XGBReg.joblib''" example_clf example_reg]
        startup_coupled_failure [of "\<lambda>p. True" "''models/XGBClassifier.joblib''"
          "\<lambda>p. Inr example_clf" "\<lambda>p. Inr example_reg" "''models/XGBReg.joblib''" example_clf example_reg]
  by (simp add: degraded_globals_def ready_globals_def)

text \<open>
  Claim C10.  Each prediction handler tests its artifact before it parses the date: with the
  artifact unset, every date string, well-formed or not, gets the 500 error "model not loaded"
  and never the 400 error of the date parser.
\<close>

theorem model_check_precedes_parsing:
  "(rain_clf g = None \<longrightarrow>
      predict_rain ib g s =
        Inl (HTTPException 500 (''Rain model not loaded. '' @ or_empty (load_error_msg g)))
      \<and> http_status (predict_rain ib g s) = 500)
   \<and> (precip_reg g = None \<longrightarrow>
      predict_precipitation_fall ib g s =
        Inl (HTTPException 500
               (''Precipitation model not loaded. '' @ or_empty (load_error_msg g)))
      \<and> http_status (predict_precipitation_fall ib g s) = 500)"
  by (simp add: predict_rain_def predict_precipitation_fall_def)

theorem model_check_precedes_parsing_witness:
  "rain_clf degraded_globals = None \<and> precip_reg degraded_globals = None
   \<and> predict_rain (\<lambda>d. True) degraded_globals ''2023/01/01'' =
       Inl (HTTPException 500
              ''Rain model not loaded. Model file not found: models/XGBReg.joblib'')
   \<and> predict_precipitation_fall (\<lambda>d. True) degraded_globals ''2023/01/01'' =
       Inl (HTTPException 500
              ''Precipitation model not loaded. Model file not found: models/XGBReg.joblib'')"
  using model_check_precedes_parsing [of degraded_globals "\<lambda>d. True" "''2023/01/01''"]
  by (simp add: degraded_globals_def)

text \<open>
  Claim C5.  With the classifier unset the rain endpoint answers 500 for every date string
  (and likewise the precipitation endpoint with the regressor unset); the precipitation
  handler's outcome does not change when the classifier variable is replaced by anything
  else, nor the rain handler's when the regressor variable is.
\<close>

theorem handlers_inspect_own_artifact:
  "(rain_clf g = None \<longrightarrow> http_status (predict_rain ib g s) = 500)
   \<and> (precip_reg g = None \<longrightarrow> http_status (predict_precipitation_fall ib g s) = 500)
   \<and> predict_precipitation_fall ib (g\<lparr>rain_clf := c\<rparr>) s = predict_precipitation_fall ib g s
   \<and> predict_rain ib (g\<lparr>precip_reg := r\<rparr>) s = predict_rain ib g s"
  by (simp add: predict_rain_def predict_precipitation_fall_def split: option.splits)

theorem handlers_inspect_own_artifact_witness:
  "rain_clf (ready_globals\<lparr>rain_clf := None\<rparr>) = None
   \<and> http_status (predict_rain (\<lambda>d. True) (ready_globals\<lparr>rain_clf := None\<rparr>) ''2023-01-01'') = 500
   \<and> precip_reg (ready_globals\<lparr>precip_reg := None\<rparr>) = None
   \<and> http_status (predict_precipitation_fall (\<lambda>d. True) (ready_globals\<lparr>precip_reg := None\<rparr>) ''2023-01-01'') = 500
   \<and> predict_precipitation_fall (\<lambda>d. True) (ready_globals\<lparr>rain_clf := None\<rparr>) ''2023-01-01''
       = predict_precipitation_fall (\<lambda>d. True) ready_globals ''2023-01-01''"
  using handlers_inspect_own_artifact [of "ready_globals\<lparr>rain_clf := None\<rparr>" "\<lambda>d. True" "''2023-01-01''"]
        handlers_inspect_own_artifact [of "ready_globals\<lparr>precip_reg := None\<rparr>" "\<lambda>d. True" "''2023-01-01''"]
        handlers_inspect_own_artifact [of ready_globals "\<lambda>d. True" "''2023-01-01''" None]
  by (simp add: ready_globals_def)

text \<open>
  Claim C6.  The health handler returns normally, with status 200, in every state.  After a
  start-up that loaded both artifacts its body is the fixed ready message; after a start-up
  that recorded an error message (a non-empty one, as every "file not found" message is) its
  body is the warning prefix followed by that message; and no warning body equals the ready
  message.
\<close>

theorem health_check_never_errors:
  "http_status (health_check g) = 200
   \<and> (\<exists>body. health_check g = Inr body)
   \<and> (startup ex lc lr rp pp = Inr g \<and> load_error_msg g \<noteq> Some [] \<longrightarrow>
        (case load_error_msg g of
           None \<Rightarrow> rain_clf g \<noteq> None \<and> precip_reg g \<noteq> None
                    \<and> health_check g = Inr ''API is ready. Models loaded.''
         | Some msg \<Rightarrow> rain_clf g = None \<and> precip_reg g = None
                    \<and> health_check g = Inr (''Startup warning: '' @ msg)))
   \<and> ''Startup warning: '' @ msg' \<noteq> ''API is ready. Models loaded.''"
  by (auto simp add: health_check_def startup_def load_model_def
        split: option.splits sum.splits if_splits elim!: except_FileNotFoundError.elims)

theorem health_check_never_errors_witness:
  "startup (\<lambda>p. p = ''models/XGBClassifier.joblib'') (\<lambda>p. Inr example_clf) (\<lambda>p. Inr example_reg)
      ''models/XGBClassifier.joblib'' ''models/XGBReg.joblib'' = Inr degraded_globals
   \<and> load_error_msg degraded_globals \<noteq> Some []
   \<and> health_check degraded_globals =
       Inr ''Startup warning: Model file not found: models/XGBReg.joblib''
   \<and> startup (\<lambda>p. True) (\<lambda>p. Inr example_clf) (\<lambda>p. Inr example_reg)
      ''models/XGBClassifier.joblib'' ''models/XGBReg.joblib'' = Inr ready_globals
   \<and> load_error_msg ready_globals \<noteq> Some []
   \<and> health_check ready_globals = Inr ''API is ready. Models loaded.''"
  using health_check_never_errors [of degraded_globals "\<lambda>p. p = ''models/XGBClassifier.joblib''"
          "\<lambda>p. Inr example_clf" "\<lambda>p. Inr example_reg"
          "''models/XGBClassifier.joblib''" "''models/XGBReg.joblib''"]
        health_check_never_errors [of ready_globals "\<lambda>p. True"
          "\<lambda>p. Inr example_clf" "\<lambda>p. Inr example_reg"
          "''models/XGBClassifier.joblib''" "''models/XGBReg.joblib''"]
  by (simp add: startup_def load_model_def degraded_globals_def ready_globals_def)

section \<open>The prediction handlers\<close>



text \<open>
  Claim C9.  The feature builder returns, whenever the frame library can represent the date,
  a frame with the single column \<^verbatim>\<open>date\<close> and a single row, whose cell is the midnight of the
  date of its argument whatever the argument's time of day.  In both handlers the frame is
  the one of the parsed base date: the outcome depends on the model only through its value
  on that frame, and the frame of any date shifted by \<open>k > 0\<close> days is a different frame.
\<close>

theorem feature_frame_from_base_date:
  "(ib (date_of d) \<longrightarrow> build_features_for_date ib d = Inr [(''date'', [midnight (ymd d)])])
   \<and> (parse_date s = Inr d0 \<and> build_features_for_date ib d0 = Inr X \<longrightarrow>
        X = [(''date'', [d0])]
        \<and> (\<forall>clf clf'. clf X = clf' X \<longrightarrow>
              predict_rain ib (g\<lparr>rain_clf := Some clf\<rparr>) s
                = predict_rain ib (g\<lparr>rain_clf := Some clf'\<rparr>) s)
        \<and> (\<forall>reg reg'. reg X = reg' X \<longrightarrow>
              predict_precipitation_fall ib (g\<lparr>precip_reg := Some reg\<rparr>) s
                = predict_precipitation_fall ib (g\<lparr>precip_reg := Some reg'\<rparr>) s)
        \<and> (\<forall>k dk. 0 < k \<and> datetime_add_days d0 (int k) = Inr dk \<longrightarrow>
              build_features_for_date ib dk \<noteq> Inr X))"
proof (intro conjI impI)
  show "build_features_for_date ib d = Inr [(''date'', [midnight (ymd d)])]" if "ib (date_of d)"
    using that by (simp add: build_features_for_date_eq)
next
  assume a: "parse_date s = Inr d0 \<and> build_features_for_date ib d0 = Inr X"
  then have p: "parse_date s = Inr d0" and b: "build_features_for_date ib d0 = Inr X"
    by simp_all
  have d0: "d0 = midnight (ymd d0)" and cal: "calendar_date (ymd d0)"
    using p by (rule parse_date_Inr)+
  have X: "X = [(''date'', [midnight (ymd d0)])]"
    using b by (simp add: build_features_for_date_eq split: if_splits)
  show "X = [(''date'', [d0])]"
    using X d0 by simp
  show "\<forall>clf clf'. clf X = clf' X \<longrightarrow>
      predict_rain ib (g\<lparr>rain_clf := Some clf\<rparr>) s = predict_rain ib (g\<lparr>rain_clf := Some clf'\<rparr>) s"
  proof (intro allI impI)
    fix clf clf' :: "int predictor"
    assume "clf X = clf' X"
    with p b show "predict_rain ib (g\<lparr>rain_clf := Some clf\<rparr>) s
        = predict_rain ib (g\<lparr>rain_clf := Some clf'\<rparr>) s"
      by (cases "datetime_add_days d0 7") (simp_all add: predict_rain_def)
  qed
  show "\<forall>reg reg'. reg X = reg' X \<longrightarrow>
      predict_precipitation_fall ib (g\<lparr>precip_reg := Some reg\<rparr>) s
        = predict_precipitation_fall ib (g\<lparr>precip_reg := Some reg'\<rparr>) s"
  proof (intro allI impI)
    fix reg reg' :: "pyfloat predictor"
    assume "reg X = reg' X"
    with p b show "predict_precipitation_fall ib (g\<lparr>precip_reg := Some reg\<rparr>) s
        = predict_precipitation_fall ib (g\<lparr>precip_reg := Some reg'\<rparr>) s"
      by (cases "datetime_add_days d0 1"; cases "datetime_add_days d0 3")
         (simp_all add: predict_precipitation_fall_def)
  qed
  show "\<forall>k dk. 0 < k \<and> datetime_add_days d0 (int k) = Inr dk \<longrightarrow>
      build_features_for_date ib dk \<noteq> Inr X"
  proof (intro allI impI notI, elim conjE)
    fix k dk
    assume k: "0 < k" and add: "datetime_add_days d0 (int k) = Inr dk"
      and same: "build_features_for_date ib dk = Inr X"
    have "ymd dk = days_after k (ymd d0)"
      using add datetime_add_days_calendar [OF cal, of k]
      by (auto simp add: ymd_def split: if_splits prod.splits)
    moreover have "midnight (ymd dk) = midnight (ymd d0)"
      using same X by (simp add: build_features_for_date_eq split: if_splits)
    ultimately have "days_after k (ymd d0) = ymd d0"
      by (simp add: midnight_inject)
    with days_after_neq [OF cal k] show False
      by simp
  qed
qed

theorem feature_frame_from_base_date_witness:
  "build_features_for_date (\<lambda>d. True) (midnight (2023, 1, 1)\<lparr>hour := 13, minute := 45\<rparr>)
     = Inr [(''date'', [midnight (2023, 1, 1)])]
   \<and> parse_date ''2023-01-01'' = Inr (midnight (2023, 1, 1))
   \<and> datetime_add_days (midnight (2023, 1, 1)) 7 = Inr (midnight (2023, 1, 8))
   \<and> build_features_for_date (\<lambda>d. True) (midnight (2023, 1, 8))
        \<noteq> Inr [(''date'', [midnight (2023, 1, 1)])]
   \<and> predict_rain (\<lambda>d. True) (ready_globals\<lparr>rain_clf := Some example_clf\<rparr>) ''2023-01-01''
        = predict_rain (\<lambda>d. True) (ready_globals\<lparr>rain_clf := Some picky_clf\<rparr>) ''2023-01-01''"
proof -
  let ?X = "[(''date'', [midnight (2023, 1, 1)])]"
  have p: "parse_date ''2023-01-01'' = Inr (midnight (2023, 1, 1))"
    by (rule parse_2023_01_01)
  have X: "build_features_for_date (\<lambda>d. True) (midnight (2023, 1, 1)) = Inr ?X"
    by (simp add: build_features_for_date_eq)
  have add: "datetime_add_days (midnight (2023, 1, 1)) (int 7) = Inr (midnight (2023, 1, 8))"
    using add_7_2023_01_01 by simp
  have clf: "example_clf ?X = picky_clf ?X"
    by (simp add: example_clf_def picky_clf_def)
  have b: "date_of (midnight (2023, 1, 1)\<lparr>hour := 13, minute := 45\<rparr>) = \<lparr>year = 2023, month = 1, day = 1\<rparr>"
    "ymd (midnight (2023, 1, 1)\<lparr>hour := 13, minute := 45\<rparr>) = (2023, 1, 1)"
    by (simp_all add: date_of_def ymd_def midnight_def)
  note w = feature_frame_from_base_date [of "\<lambda>d. True"
      "midnight (2023, 1, 1)\<lparr>hour := 13, minute := 45\<rparr>"
      "''2023-01-01''" "midnight (2023, 1, 1)" ?X ready_globals]
  from w have 1: "build_features_for_date (\<lambda>d. True) (midnight (2023, 1, 1)\<lparr>hour := 13, minute := 45\<rparr>)
     = Inr ?X"
    by (simp only: b simp_thms)
  from w p X have 2: "\<forall>clf clf'. clf ?X = clf' ?X \<longrightarrow>
              predict_rain (\<lambda>d. True) (ready_globals\<lparr>rain_clf := Some clf\<rparr>) ''2023-01-01''
                = predict_rain (\<lambda>d. True) (ready_globals\<lparr>rain_clf := Some clf'\<rparr>) ''2023-01-01''"
    and 3: "\<forall>k dk. 0 < k \<and> datetime_add_days (midnight (2023, 1, 1)) (int k) = Inr dk \<longrightarrow>
              build_features_for_date (\<lambda>d. True) dk \<noteq> Inr ?X"
    by blast+
  from 2 clf have 4: "predict_rain (\<lambda>d. True) (ready_globals\<lparr>rain_clf := Some example_clf\<rparr>) ''2023-01-01''
        = predict_rain (\<lambda>d. True) (ready_globals\<lparr>rain_clf := Some picky_clf\<rparr>) ''2023-01-01''"
    by blast
  from 3 add have 5: "build_features_for_date (\<lambda>d. True) (midnight (2023, 1, 8)) \<noteq> Inr ?X"
    by (metis zero_less_numeral)
  from 1 p add_7_2023_01_01 5 4 show ?thesis
    by (intro conjI)
qed




end
